theory Spec2Isabelle
  imports Main "HOL-Library.AList" "HOL-Library.Word"
begin

section \<open>The chat gateway of server.js: sessions, presence and the message log\<close>

text \<open>
  The model covers the Socket.IO part of \<^verbatim>\<open>server.js\<close> (the handlers of
  \<^verbatim>\<open>auth\<close>, \<^verbatim>\<open>send-message\<close>, \<^verbatim>\<open>send-image\<close> and
  \<^verbatim>\<open>disconnect\<close>), the helpers \<^verbatim>\<open>readJSON\<close> and \<^verbatim>\<open>writeJSON\<close>, and the
  route \<^verbatim>\<open>GET /api/messages\<close>.

  The handlers are \<^verbatim>\<open>async\<close>: each stops at every \<^verbatim>\<open>await\<close>, and other handlers run
  before it goes on. Every handler is given twice: as one function, for a handler whose
  awaits complete before anything else happens, and in the pieces between its awaits,
  which the step function of the server runs one at a time. Reads and writes of a file
  are atomic and happen when the handler that awaits them goes on.
\<close>

subsection \<open>Strings\<close>

text \<open>
  A JavaScript string is a sequence of 16-bit code units. The payloads of the inbound
  events (\<^verbatim>\<open>userId\<close>, \<^verbatim>\<open>text\<close>, \<^verbatim>\<open>imageUrl\<close>) are strings, as the connection
  protocol types them.
\<close>

type_synonym jstring = "16 word list"

text \<open>A string literal of the source: each ASCII character is one code unit.\<close>

definition js :: "string \<Rightarrow> jstring" where
  "js s = map (\<lambda>c. of_nat (of_char c)) s"

text \<open>
  The code units that \<^verbatim>\<open>String.prototype.trim\<close> strips: ECMAScript's WhiteSpace
  (TAB, VT, FF, the byte order mark and the space separators) and LineTerminator
  (LF, CR, LS, PS).
\<close>

definition isWhiteSpace :: "16 word \<Rightarrow> bool" where
  "isWhiteSpace c =
     (c \<in> {0x0009, 0x000A, 0x000B, 0x000C, 0x000D, 0x0020, 0x00A0, 0x1680,
            0x2028, 0x2029, 0x202F, 0x205F, 0x3000, 0xFEFF}
      \<or> (0x2000 \<le> c \<and> c \<le> 0x200A))"

definition trim :: "jstring \<Rightarrow> jstring" where
  "trim s = rev (dropWhile isWhiteSpace (rev (dropWhile isWhiteSpace s)))"

text \<open>\<^verbatim>\<open>a || b\<close> on strings: the empty string is falsy.\<close>

definition js_or :: "jstring \<Rightarrow> jstring \<Rightarrow> jstring" where
  "js_or a b = (if a = [] then b else a)"

text \<open>\<^verbatim>\<open>n.toString(36)\<close> for a non-negative integer, as \<^verbatim>\<open>Date.now()\<close> returns.\<close>

definition digit36 :: "nat \<Rightarrow> 16 word" where
  "digit36 d = (if d < 10 then of_nat (48 + d) else of_nat (87 + d))"

function toString36 :: "nat \<Rightarrow> jstring" where
  "toString36 n =
     (if n < 36 then [digit36 n] else toString36 (n div 36) @ [digit36 (n mod 36)])"
  by pat_completeness auto
termination
  by (relation "measure (\<lambda>n. n)") auto

declare toString36.simps [simp del]

subsection \<open>Records of the two JSON files\<close>

record user =
  u_id :: jstring
  u_username :: jstring
  u_passwordHash :: jstring
  u_profile :: jstring
  u_color :: jstring
  u_createdAt :: nat

text \<open>The object \<^verbatim>\<open>{ id, username, profile, color }\<close> that is stored as \<^verbatim>\<open>socket.user\<close>.\<close>

record safe_user =
  s_id :: jstring
  s_username :: jstring
  s_profile :: jstring
  s_color :: jstring

text \<open>
  A message has either the field \<^verbatim>\<open>text\<close> or the field \<^verbatim>\<open>image\<close>; the absent
  one is \<open>None\<close>.
\<close>

record message =
  m_id :: jstring
  m_userId :: jstring
  m_username :: jstring
  m_profile :: jstring
  m_color :: jstring
  m_text :: "jstring option"
  m_image :: "jstring option"
  m_timestamp :: nat

subsection \<open>The backing files: readJSON and writeJSON\<close>

text \<open>
  What \<^verbatim>\<open>readJSON\<close> can find at a path: no readable file (\<^verbatim>\<open>readFile\<close> throws), an
  empty text, a text that \<^verbatim>\<open>JSON.parse\<close> rejects, or the JSON text of an array.
  \<^verbatim>\<open>JSON.stringify\<close> followed by \<^verbatim>\<open>JSON.parse\<close> gives back the same array of
  records, so the file holds the list itself.
\<close>

datatype 'a file_content = Unreadable | EmptyText | Corrupt | Json "'a list"

definition readJSON :: "'a file_content \<Rightarrow> 'a list" where
  "readJSON f = (case f of
       Unreadable \<Rightarrow> []
     | EmptyText \<Rightarrow> []
     | Corrupt \<Rightarrow> []
     | Json xs \<Rightarrow> xs)"

text \<open>
  \<^verbatim>\<open>fs.promises.writeFile\<close> either writes the whole text or rejects; when it rejects,
  what it leaves at the path is given by the environment.
\<close>

text \<open>
  The errors that are thrown: by a read or a write of a file, by \<^verbatim>\<open>JSON.parse\<close>, and
  by the use of a value that has not the property that is called or read.
\<close>

datatype error = StoreIOError | SyntaxError | TypeError

datatype 'a disk = Writes | Rejects "'a file_content"

definition writeJSON :: "'a disk \<Rightarrow> 'a list \<Rightarrow> (error + unit) \<times> 'a file_content" where
  "writeJSON d xs = (case d of
       Writes \<Rightarrow> (Inr (), Json xs)
     | Rejects left \<Rightarrow> (Inl StoreIOError, left))"

text \<open>
  A \<open>file_content\<close> holds an array of records. The text of a file on disk can be
  any text, and \<^verbatim>\<open>readJSON\<close> returns whatever \<^verbatim>\<open>JSON.parse\<close> makes of it:
  \<^verbatim>\<open>
  async function readJSON(filePath) {
    try {
      const txt = await fs.promises.readFile(filePath, "utf8");
      return JSON.parse(txt || "[]");
    } catch (e) {
      return [];
    }
  }
  \<close>
  A text is the empty string, a text that \<^verbatim>\<open>JSON.parse\<close> rejects, or the JSON text of
  a value. Of a value the handlers use that it is an array (\<^verbatim>\<open>find\<close>, \<^verbatim>\<open>push\<close>,
  \<^verbatim>\<open>slice\<close>), or a string (which also has \<^verbatim>\<open>slice\<close>), or neither: \<open>JOther\<close>
  stands for \<^verbatim>\<open>null\<close>, a number, a boolean and an object.
\<close>

datatype 'a parsed = JArray "'a list" | JString jstring | JOther

datatype 'a file_text = EmptyString | Malformed | Encodes "'a parsed"

datatype 'a disk_text = NoFile | FileText "'a file_text"

definition readFile :: "'a disk_text \<Rightarrow> error + 'a file_text" where
  "readFile f = (case f of NoFile \<Rightarrow> Inl StoreIOError | FileText txt \<Rightarrow> Inr txt)"

definition JSON_parse :: "'a file_text \<Rightarrow> error + 'a parsed" where
  "JSON_parse txt = (case txt of
       EmptyString \<Rightarrow> Inl SyntaxError
     | Malformed \<Rightarrow> Inl SyntaxError
     | Encodes v \<Rightarrow> Inr v)"

text \<open>\<^verbatim>\<open>txt || "[]"\<close>: the empty string is falsy.\<close>

definition or_empty_array :: "'a file_text \<Rightarrow> 'a file_text" where
  "or_empty_array txt = (case txt of EmptyString \<Rightarrow> Encodes (JArray []) | _ \<Rightarrow> txt)"

definition readJSON_any :: "'a disk_text \<Rightarrow> 'a parsed" where
  "readJSON_any f = (case readFile f of
       Inl _ \<Rightarrow> JArray []
     | Inr txt \<Rightarrow> (case JSON_parse (or_empty_array txt) of
         Inl _ \<Rightarrow> JArray []
       | Inr v \<Rightarrow> v))"

text \<open>
  A file of the state as a text on disk, \<open>enc\<close> giving the JSON value of a record;
  \<open>readJSON\<close> is \<open>readJSON_any\<close> on such a file (\<open>readJSON_on_disk\<close> below).
\<close>

definition on_disk :: "('a \<Rightarrow> 'b) \<Rightarrow> 'a file_content \<Rightarrow> 'b disk_text" where
  "on_disk enc f = (case f of
       Unreadable \<Rightarrow> NoFile
     | EmptyText \<Rightarrow> FileText EmptyString
     | Corrupt \<Rightarrow> FileText Malformed
     | Json xs \<Rightarrow> FileText (Encodes (JArray (map enc xs))))"

text \<open>
  An element of the array in the users file, as \<^verbatim>\<open>u => u.id === userId\<close> sees it:
  an object with the fields of a user, \<^verbatim>\<open>null\<close> (reading \<^verbatim>\<open>u.id\<close> throws), or
  another value, which has no \<^verbatim>\<open>id\<close>.
\<close>

datatype element = UserObject user | NullElement | OtherElement

subsection \<open>The server's state and what it emits\<close>

type_synonym sid = jstring

text \<open>What the clock and the random generator give to one send, and what the disk does.\<close>

record env =
  now_id :: nat
  random36 :: jstring
  now_stamp :: nat
  disk :: "message disk"

text \<open>The field that makes a message a text or an image.\<close>

datatype payload = TextPayload jstring | ImagePayload jstring

text \<open>
  A handler that waits at an \<^verbatim>\<open>await\<close>, with the variables it goes on with: the
  \<^verbatim>\<open>auth\<close> handler at its read of the users file and at its read of the messages file,
  a send handler at its read of the messages file and at its write, which holds the
  message and the array it writes.
\<close>

datatype task =
    AwaitUsers sid jstring
  | AwaitMessages sid
  | AwaitLog sid payload env
  | AwaitWrite message "message list" "message disk"

text \<open>
  \<open>online\<close> is the object \<^verbatim>\<open>online\<close> of the source, with its keys in insertion order
  (\<^verbatim>\<open>Object.values\<close> lists the values in that order). \<open>socket_user\<close> holds the
  property \<^verbatim>\<open>socket.user\<close> of every socket object that has one, \<open>connected\<close>
  lists the sockets that \<^verbatim>\<open>io.emit\<close> reaches, and \<open>pending\<close> the handlers that wait.
\<close>

record server =
  users_file :: "user file_content"
  messages_file :: "message file_content"
  online :: "(sid \<times> safe_user) list"
  socket_user :: "(sid \<times> safe_user) list"
  connected :: "sid list"
  pending :: "task list"

datatype event =
    AuthFailed
  | UpdateUsers "safe_user list"
  | LoadMessages "message list"
  | LoadMessagesText jstring
  | NewMessage message

text \<open>\<^verbatim>\<open>socket.emit\<close> addresses one socket, \<^verbatim>\<open>io.emit\<close> every connected one.\<close>

datatype target = ToSocket sid | ToAll

type_synonym emission = "target \<times> event"

definition deliver :: "sid list \<Rightarrow> emission \<Rightarrow> (sid \<times> event) list" where
  "deliver conns e = (case fst e of
       ToSocket s \<Rightarrow> [(s, snd e)]
     | ToAll \<Rightarrow> map (\<lambda>c. (c, snd e)) conns)"

definition deliveries :: "sid list \<Rightarrow> emission list \<Rightarrow> (sid \<times> event) list" where
  "deliveries conns es = concat (map (deliver conns) es)"

text \<open>\<^verbatim>\<open>Object.values(online)\<close>.\<close>

definition values_of :: "(sid \<times> safe_user) list \<Rightarrow> safe_user list" where
  "values_of obj = map snd obj"

text \<open>\<^verbatim>\<open>xs.slice(-n)\<close>: the last \<open>n\<close> elements, or all of them when there are fewer.\<close>

definition slice_last :: "nat \<Rightarrow> 'a list \<Rightarrow> 'a list" where
  "slice_last n xs = drop (length xs - n) xs"

subsection \<open>The handlers, each in one go\<close>

text \<open>The projection written out at \<^verbatim>\<open>socket.user = { ... }\<close>.\<close>

definition safe :: "user \<Rightarrow> safe_user" where
  "safe u = \<lparr>s_id = u_id u, s_username = u_username u, s_profile = u_profile u,
             s_color = u_color u\<rparr>"

text \<open>\<^verbatim>\<open>socket.on("auth", async (userId) => ...)\<close>\<close>

definition on_auth :: "sid \<Rightarrow> jstring \<Rightarrow> server \<Rightarrow> (error + unit) \<times> emission list \<times> server" where
  "on_auth sock userId st =
     (let users = readJSON (users_file st) in
      case find (\<lambda>u. u_id u = userId) users of
        None \<Rightarrow> (Inr (), [(ToSocket sock, AuthFailed)], st)
      | Some u \<Rightarrow>
          (let st1 = st\<lparr>socket_user := AList.update sock (safe u) (socket_user st)\<rparr>;
               st2 = st1\<lparr>online := AList.update sock (safe u) (online st1)\<rparr>;
               e1 = (ToAll, UpdateUsers (values_of (online st2)));
               messages = readJSON (messages_file st2);
               tail = slice_last 500 messages
           in (Inr (), [e1, (ToSocket sock, LoadMessages tail)], st2)))"

text \<open>
  \<^verbatim>\<open>messages.push(msg); if (messages.length > 2000) messages.splice(0, messages.length - 2000)\<close>,
  the same two lines in both send handlers.
\<close>

definition push_capped :: "message list \<Rightarrow> message \<Rightarrow> message list" where
  "push_capped messages msg =
     (let messages1 = messages @ [msg] in
      if length messages1 > 2000 then drop (length messages1 - 2000) messages1
      else messages1)"

definition new_id :: "env \<Rightarrow> jstring" where
  "new_id e = toString36 (now_id e) @ js ''-'' @ random36 e"

text \<open>\<^verbatim>\<open>socket.on("send-message", async (text) => ...)\<close>\<close>

definition on_send_message ::
  "sid \<Rightarrow> jstring \<Rightarrow> env \<Rightarrow> server \<Rightarrow> (error + unit) \<times> emission list \<times> server" where
  "on_send_message sock text0 e st =
     (case map_of (socket_user st) sock of
        None \<Rightarrow> (Inr (), [], st)
      | Some su \<Rightarrow>
          (let text1 = trim (js_or text0 (js '''')) in
           if text1 = [] then (Inr (), [], st)
           else
            let messages = readJSON (messages_file st);
                msg = \<lparr>m_id = new_id e, m_userId = s_id su, m_username = s_username su,
                       m_profile = js_or (s_profile su) (js ''''),
                       m_color = js_or (s_color su) (js ''#fff''),
                       m_text = Some text1, m_image = None, m_timestamp = now_stamp e\<rparr>;
                messages2 = push_capped messages msg
            in (case writeJSON (disk e) messages2 of
                  (Inl err, f) \<Rightarrow> (Inl err, [], st\<lparr>messages_file := f\<rparr>)
                | (Inr _, f) \<Rightarrow>
                    (Inr (), [(ToAll, NewMessage msg)], st\<lparr>messages_file := f\<rparr>))))"

text \<open>\<^verbatim>\<open>socket.on("send-image", async (imageUrl) => ...)\<close>\<close>

definition on_send_image ::
  "sid \<Rightarrow> jstring \<Rightarrow> env \<Rightarrow> server \<Rightarrow> (error + unit) \<times> emission list \<times> server" where
  "on_send_image sock imageUrl e st =
     (case map_of (socket_user st) sock of
        None \<Rightarrow> (Inr (), [], st)
      | Some su \<Rightarrow>
          if imageUrl = [] then (Inr (), [], st)
          else
            let messages = readJSON (messages_file st);
                msg = \<lparr>m_id = new_id e, m_userId = s_id su, m_username = s_username su,
                       m_profile = js_or (s_profile su) (js ''''),
                       m_color = js_or (s_color su) (js ''#fff''),
                       m_text = None, m_image = Some imageUrl, m_timestamp = now_stamp e\<rparr>;
                messages2 = push_capped messages msg
            in (case writeJSON (disk e) messages2 of
                  (Inl err, f) \<Rightarrow> (Inl err, [], st\<lparr>messages_file := f\<rparr>)
                | (Inr _, f) \<Rightarrow>
                    (Inr (), [(ToAll, NewMessage msg)], st\<lparr>messages_file := f\<rparr>)))"

text \<open>\<^verbatim>\<open>socket.on("disconnect", () => ...)\<close>\<close>

definition on_disconnect :: "sid \<Rightarrow> server \<Rightarrow> (error + unit) \<times> emission list \<times> server" where
  "on_disconnect sock st =
     (case map_of (online st) sock of
        None \<Rightarrow> (Inr (), [], st)
      | Some _ \<Rightarrow>
          let st1 = st\<lparr>online := AList.delete sock (online st)\<rparr>
          in (Inr (), [(ToAll, UpdateUsers (values_of (online st1)))], st1))"

text \<open>\<^verbatim>\<open>app.get("/api/messages", ...)\<close>: the field \<^verbatim>\<open>messages\<close> of the response.\<close>

definition get_api_messages :: "server \<Rightarrow> message list" where
  "get_api_messages st = readJSON (messages_file st)"

text \<open>The same field for any text of the messages file on disk.\<close>

definition get_api_messages_any :: "message disk_text \<Rightarrow> message parsed" where
  "get_api_messages_any f = readJSON_any f"

text \<open>What a handler, or a piece of one, has emitted, and the state it leaves.\<close>

definition emitted :: "(error + unit) \<times> emission list \<times> server \<Rightarrow> emission list" where
  "emitted r = fst (snd r)"

definition after :: "(error + unit) \<times> emission list \<times> server \<Rightarrow> server" where
  "after r = snd (snd r)"

subsection \<open>The handlers between their awaits\<close>

text \<open>
  A handler runs until its next \<^verbatim>\<open>await\<close>; what follows the \<^verbatim>\<open>await\<close> runs later, and
  other handlers run in between. A pending task stands for a handler that waits at an
  \<^verbatim>\<open>await\<close>. The functions below are the pieces of the handlers between the awaits; a
  piece that follows a read takes what \<^verbatim>\<open>readJSON\<close> returned as an argument, of any
  shape.
\<close>

definition add_task :: "task \<Rightarrow> server \<Rightarrow> server" where
  "add_task t st = st\<lparr>pending := pending st @ [t]\<rparr>"

text \<open>\<^verbatim>\<open>auth\<close>, up to \<^verbatim>\<open>await readJSON(USERS_FILE)\<close>.\<close>

definition auth_begin :: "sid \<Rightarrow> jstring \<Rightarrow> server \<Rightarrow> (error + unit) \<times> emission list \<times> server" where
  "auth_begin sock userId st = (Inr (), [], add_task (AwaitUsers sock userId) st)"

text \<open>\<^verbatim>\<open>users.find(u => u.id === userId)\<close> on the elements of an array.\<close>

fun find_user :: "jstring \<Rightarrow> element list \<Rightarrow> error + user option" where
  "find_user userId [] = Inr None"
| "find_user userId (NullElement # es) = Inl TypeError"
| "find_user userId (OtherElement # es) = find_user userId es"
| "find_user userId (UserObject u # es) =
     (if u_id u = userId then Inr (Some u) else find_user userId es)"

definition users_find :: "jstring \<Rightarrow> element parsed \<Rightarrow> error + user option" where
  "users_find userId users = (case users of
       JArray es \<Rightarrow> find_user userId es
     | JString s \<Rightarrow> Inl TypeError
     | JOther \<Rightarrow> Inl TypeError)"

text \<open>\<^verbatim>\<open>auth\<close>, from the result of the first read to \<^verbatim>\<open>await readJSON(MESSAGES_FILE)\<close>.\<close>

definition auth_got_users ::
  "sid \<Rightarrow> jstring \<Rightarrow> element parsed \<Rightarrow> server \<Rightarrow> (error + unit) \<times> emission list \<times> server" where
  "auth_got_users sock userId users st = (case users_find userId users of
       Inl err \<Rightarrow> (Inl err, [], st)
     | Inr None \<Rightarrow> (Inr (), [(ToSocket sock, AuthFailed)], st)
     | Inr (Some u) \<Rightarrow>
         (let st1 = st\<lparr>socket_user := AList.update sock (safe u) (socket_user st)\<rparr>;
              st2 = st1\<lparr>online := AList.update sock (safe u) (online st1)\<rparr>;
              e1 = (ToAll, UpdateUsers (values_of (online st2)))
          in (Inr (), [e1], add_task (AwaitMessages sock) st2)))"

text \<open>\<^verbatim>\<open>auth\<close>, from the result of the second read to the end.\<close>

definition auth_got_messages ::
  "sid \<Rightarrow> message parsed \<Rightarrow> server \<Rightarrow> (error + unit) \<times> emission list \<times> server" where
  "auth_got_messages sock messages st = (case messages of
       JArray ms \<Rightarrow> (Inr (), [(ToSocket sock, LoadMessages (slice_last 500 ms))], st)
     | JString s \<Rightarrow> (Inr (), [(ToSocket sock, LoadMessagesText (slice_last 500 s))], st)
     | JOther \<Rightarrow> (Inl TypeError, [], st))"

text \<open>\<^verbatim>\<open>send-message\<close> and \<^verbatim>\<open>send-image\<close>, up to \<^verbatim>\<open>await readJSON(MESSAGES_FILE)\<close>.\<close>

definition send_message_begin ::
  "sid \<Rightarrow> jstring \<Rightarrow> env \<Rightarrow> server \<Rightarrow> (error + unit) \<times> emission list \<times> server" where
  "send_message_begin sock text0 e st =
     (case map_of (socket_user st) sock of
        None \<Rightarrow> (Inr (), [], st)
      | Some su \<Rightarrow>
          (let text1 = trim (js_or text0 (js '''')) in
           if text1 = [] then (Inr (), [], st)
           else (Inr (), [], add_task (AwaitLog sock (TextPayload text1) e) st)))"

definition send_image_begin ::
  "sid \<Rightarrow> jstring \<Rightarrow> env \<Rightarrow> server \<Rightarrow> (error + unit) \<times> emission list \<times> server" where
  "send_image_begin sock imageUrl e st =
     (case map_of (socket_user st) sock of
        None \<Rightarrow> (Inr (), [], st)
      | Some su \<Rightarrow>
          if imageUrl = [] then (Inr (), [], st)
          else (Inr (), [], add_task (AwaitLog sock (ImagePayload imageUrl) e) st))"

text \<open>
  Both send handlers, from the result of the read to \<^verbatim>\<open>await writeJSON(...)\<close>: the
  message is built from \<^verbatim>\<open>socket.user\<close> as it is now (reading a field of an undefined
  \<^verbatim>\<open>socket.user\<close> throws), pushed, and the array cut to 2000.
\<close>

definition send_got_messages ::
  "sid \<Rightarrow> payload \<Rightarrow> env \<Rightarrow> message parsed \<Rightarrow> server
     \<Rightarrow> (error + unit) \<times> emission list \<times> server" where
  "send_got_messages sock p e messages st =
     (case map_of (socket_user st) sock of
        None \<Rightarrow> (Inl TypeError, [], st)
      | Some su \<Rightarrow>
          (let msg = \<lparr>m_id = new_id e, m_userId = s_id su, m_username = s_username su,
                      m_profile = js_or (s_profile su) (js ''''),
                      m_color = js_or (s_color su) (js ''#fff''),
                      m_text = (case p of TextPayload t \<Rightarrow> Some t | ImagePayload u \<Rightarrow> None),
                      m_image = (case p of TextPayload t \<Rightarrow> None | ImagePayload u \<Rightarrow> Some u),
                      m_timestamp = now_stamp e\<rparr>
           in (case messages of
                 JArray ms \<Rightarrow>
                   (Inr (), [], add_task (AwaitWrite msg (push_capped ms msg) (disk e)) st)
               | JString s \<Rightarrow> (Inl TypeError, [], st)
               | JOther \<Rightarrow> (Inl TypeError, [], st))))"

text \<open>Both send handlers, from the result of the write to the end.\<close>

definition send_written ::
  "message \<Rightarrow> message list \<Rightarrow> message disk \<Rightarrow> server
     \<Rightarrow> (error + unit) \<times> emission list \<times> server" where
  "send_written msg messages2 d st = (case writeJSON d messages2 of
       (Inl err, f) \<Rightarrow> (Inl err, [], st\<lparr>messages_file := f\<rparr>)
     | (Inr _, f) \<Rightarrow> (Inr (), [(ToAll, NewMessage msg)], st\<lparr>messages_file := f\<rparr>))"

text \<open>
  The awaited read or write of a task is done and the handler goes on. The read sees
  the file as it is at that moment, the write replaces it at that moment.
\<close>

definition resume :: "task \<Rightarrow> server \<Rightarrow> (error + unit) \<times> emission list \<times> server" where
  "resume t st = (case t of
       AwaitUsers sock userId \<Rightarrow>
         auth_got_users sock userId (readJSON_any (on_disk UserObject (users_file st))) st
     | AwaitMessages sock \<Rightarrow>
         auth_got_messages sock (readJSON_any (on_disk id (messages_file st))) st
     | AwaitLog sock p e \<Rightarrow>
         send_got_messages sock p e (readJSON_any (on_disk id (messages_file st))) st
     | AwaitWrite msg messages2 d \<Rightarrow> send_written msg messages2 d st)"

subsection \<open>Events in sequence\<close>

text \<open>
  What Socket.IO and the event loop hand to the server: a new connection, the three
  inbound events of a socket, the close of a socket, and the completion of the awaited
  read or write of the task at a position of \<open>pending\<close>. Socket ids are unique, so a
  connection with the id of a connected socket does not occur, and a socket receives
  events only while it is connected; a handler that waits goes on whether or not its
  socket is still connected. A new socket object has no \<^verbatim>\<open>user\<close> property. A closing
  socket has left the set that \<^verbatim>\<open>io.emit\<close> reaches before its \<^verbatim>\<open>disconnect\<close> handler
  runs.
\<close>

datatype input =
    Connect sid
  | Auth sid jstring
  | SendMessage sid jstring env
  | SendImage sid jstring env
  | Disconnect sid
  | Resume nat

definition step :: "input \<Rightarrow> server \<Rightarrow> (error + unit) \<times> emission list \<times> server" where
  "step i st = (case i of
       Connect s \<Rightarrow>
         if s \<in> set (connected st) then (Inr (), [], st)
         else (Inr (), [], st\<lparr>socket_user := AList.delete s (socket_user st),
                                connected := connected st @ [s]\<rparr>)
     | Auth s userId \<Rightarrow>
         if s \<in> set (connected st) then auth_begin s userId st else (Inr (), [], st)
     | SendMessage s text0 e \<Rightarrow>
         if s \<in> set (connected st) then send_message_begin s text0 e st else (Inr (), [], st)
     | SendImage s imageUrl e \<Rightarrow>
         if s \<in> set (connected st) then send_image_begin s imageUrl e st else (Inr (), [], st)
     | Disconnect s \<Rightarrow>
         if s \<in> set (connected st)
         then on_disconnect s (st\<lparr>connected := removeAll s (connected st)\<rparr>)
         else (Inr (), [], st)
     | Resume k \<Rightarrow>
         if k < length (pending st)
         then resume (pending st ! k)
                (st\<lparr>pending := take k (pending st) @ drop (Suc k) (pending st)\<rparr>)
         else (Inr (), [], st))"

text \<open>
  A run handles the inputs one after the other and collects what is emitted to each
  socket: an emission to all reaches the sockets connected when it is made, an emission
  to one socket is listed for that socket.
\<close>

fun run :: "input list \<Rightarrow> server \<Rightarrow> (sid \<times> event) list \<times> server" where
  "run [] st = ([], st)"
| "run (i # ins) st =
     (let r = step i st; seen = deliveries (connected (after r)) (emitted r);
          rest = run ins (after r)
      in (seen @ fst rest, snd rest))"

text \<open>
  The state at the start of the process: \<^verbatim>\<open>let online = {}\<close>, no socket and no handler
  waiting.
\<close>

definition init :: "user file_content \<Rightarrow> message file_content \<Rightarrow> server" where
  "init uf mf = \<lparr>users_file = uf, messages_file = mf, online = [], socket_user = [],
                 connected = [], pending = []\<rparr>"

text \<open>
  A handler whose awaits complete at once, with no other handler in between: the
  inputs that start it and let it go on twice, \<open>n\<close> being the number of tasks that wait
  when it starts.
\<close>

definition in_one_go :: "input \<Rightarrow> nat \<Rightarrow> input list" where
  "in_one_go i n = [i, Resume n, Resume n]"

text \<open>Two users files that differ at most in the password digests of their users.\<close>

definition erase_password :: "user \<Rightarrow> user" where
  "erase_password u = u\<lparr>u_passwordHash := []\<rparr>"

definition same_but_passwords :: "user file_content \<Rightarrow> user file_content \<Rightarrow> bool" where
  "same_but_passwords f g =
     (map_file_content erase_password f = map_file_content erase_password g)"

text \<open>Two states that differ at most in the password digests of the users file.\<close>

definition same_view :: "server \<Rightarrow> server \<Rightarrow> bool" where
  "same_view a b =
     (same_but_passwords (users_file a) (users_file b) \<and> messages_file a = messages_file b
      \<and> online a = online b \<and> socket_user a = socket_user b \<and> connected a = connected b
      \<and> pending a = pending b)"

subsection \<open>A small instance\<close>

definition alice :: user where
  "alice = \<lparr>u_id = js ''u1'', u_username = js ''alice'', u_passwordHash = js ''5e88'',
            u_profile = js '''', u_color = js ''#112233'', u_createdAt = 1000\<rparr>"

definition bob :: user where
  "bob = \<lparr>u_id = js ''u2'', u_username = js ''bob'', u_passwordHash = js ''9f86'',
          u_profile = js ''/uploads/b.png'', u_color = js ''#445566'', u_createdAt = 2000\<rparr>"

definition sock1 :: sid where
  "sock1 = js ''c1''"

definition sock2 :: sid where
  "sock2 = js ''c2''"

definition quiet :: server where
  "quiet = \<lparr>users_file = Json [alice, bob], messages_file = Json [], online = [],
            socket_user = [], connected = [sock1, sock2], pending = []\<rparr>"

definition chatting :: server where
  "chatting = quiet\<lparr>online := [(sock1, safe alice)], socket_user := [(sock1, safe alice)]\<rparr>"

definition good_env :: env where
  "good_env = \<lparr>now_id = 40, random36 = js ''0.k3'', now_stamp = 41, disk = Writes\<rparr>"

definition bad_env :: env where
  "bad_env = good_env\<lparr>disk := Rejects Corrupt\<rparr>"

definition hi_from_alice :: input where
  "hi_from_alice = SendMessage sock1 (js ''hi'') good_env"

definition hi_message :: message where
  "hi_message = \<lparr>m_id = js ''14-0.k3'', m_userId = js ''u1'', m_username = js ''alice'',
     m_profile = js '''', m_color = js ''#112233'', m_text = Some (js ''hi''),
     m_image = None, m_timestamp = 41\<rparr>"

text \<open>The \<open>n\<close>-th of a series of texts from alice, sent at time \<open>n\<close>.\<close>

definition nth_send :: "nat \<Rightarrow> input" where
  "nth_send n = SendMessage sock1 (js ''hi'') (good_env\<lparr>now_stamp := n\<rparr>)"

definition nth_message :: "nat \<Rightarrow> message" where
  "nth_message n = hi_message\<lparr>m_timestamp := n\<rparr>"

definition picture_from_alice :: input where
  "picture_from_alice = SendImage sock1 (js ''/uploads/x.png'') (good_env\<lparr>now_stamp := 42\<rparr>)"

definition picture_message :: message where
  "picture_message = hi_message\<lparr>m_text := None, m_image := Some (js ''/uploads/x.png''),
     m_timestamp := 42\<rparr>"

text \<open>
  2001 texts from alice: the first 1999 one after the other, each handled in one go; the
  last two start before either has read the log.
\<close>

definition last_two_overlap :: "input list" where
  "last_two_overlap =
     concat (map (\<lambda>n. in_one_go (nth_send n) 0) [0..<1999])
     @ [nth_send 1999, nth_send 2000, Resume 0, Resume 0, Resume 0, Resume 0]"


text \<open>
  From the start of the process: two sockets connect, the first sends \<^verbatim>\<open>auth\<close> and
  closes before the users file is read; then the two reads of its handler complete.
\<close>

definition auth_then_close :: "input list" where
  "auth_then_close =
     [Connect sock1, Connect sock2, Auth sock1 (js ''u1''), Disconnect sock1, Resume 0, Resume 0]"

section \<open>Properties\<close>

subsection \<open>Helper facts\<close>

lemmas instance_defs = quiet_def chatting_def alice_def bob_def sock1_def sock2_def
  good_env_def bad_env_def js_def safe_def readJSON_def

lemma find_None_iff_id: "(find (\<lambda>u. u_id u = userId) us = None) = (userId \<notin> u_id ` set us)"
  by (auto simp: find_None_iff)

lemma js_or_empty: "js_or a (js '''') = a"
  by (simp add: js_or_def js_def)

lemma slice_last_length: "length (slice_last n xs) = min n (length xs)"
  by (simp add: slice_last_def)

lemma slice_last_suffix: "take (length xs - n) xs @ slice_last n xs = xs"
  by (simp add: slice_last_def)

lemma filter_update_distinct:
  "distinct (map fst al) \<Longrightarrow> filter (\<lambda>p. fst p = k) (AList.update k v al) = [(k, v)]"
proof (induction al)
  case Nil
  then show ?case by simp
next
  case (Cons p al)
  have "filter (\<lambda>q. fst q = k) al = []" if "fst p = k"
    using that Cons.prems by (force simp: filter_empty_conv image_iff)
  with Cons show ?case by (cases p) auto
qed

lemma push_capped_short: "length ms < 2000 \<Longrightarrow> push_capped ms m = ms @ [m]"
  by (simp add: push_capped_def Let_def)

lemma push_capped_length: "length (push_capped ms m) \<le> 2000"
  by (simp add: push_capped_def Let_def)

subsection \<open>Reading the files\<close>

text \<open>On a file of the state, \<open>readJSON_any\<close> returns the array that \<open>readJSON\<close> gives.\<close>

lemma readJSON_on_disk: "readJSON_any (on_disk enc f) = JArray (map enc (readJSON f))"
  by (cases f)
    (simp_all add: readJSON_any_def on_disk_def readFile_def JSON_parse_def or_empty_array_def
      readJSON_def)

lemma find_user_objects:
  "find_user userId (map UserObject us) = Inr (find (\<lambda>u. u_id u = userId) us)"
  by (induction us) simp_all

lemma users_find_on_disk:
  "users_find userId (readJSON_any (on_disk UserObject f))
     = Inr (find (\<lambda>u. u_id u = userId) (readJSON f))"
  by (simp add: readJSON_on_disk users_find_def find_user_objects)


lemma get_api_messages_on_disk:
  "get_api_messages_any (on_disk id (messages_file st)) = JArray (get_api_messages st)"
  by (simp add: get_api_messages_any_def get_api_messages_def readJSON_on_disk)

subsection \<open>The pieces of a handler make the handler\<close>

text \<open>
  When the awaits of a handler complete with nothing in between, its pieces do what
  the handler in one go does.
\<close>

lemma resume_users:
  "resume (AwaitUsers s x) st =
     (case find (\<lambda>u. u_id u = x) (readJSON (users_file st)) of
        None \<Rightarrow> (Inr (), [(ToSocket s, AuthFailed)], st)
      | Some u \<Rightarrow>
          (Inr (), [(ToAll, UpdateUsers (values_of (AList.update s (safe u) (online st))))],
           add_task (AwaitMessages s)
             (st\<lparr>socket_user := AList.update s (safe u) (socket_user st),
                 online := AList.update s (safe u) (online st)\<rparr>)))"
  unfolding resume_def auth_got_users_def users_find_on_disk
  by (simp add: Let_def split: option.splits)

lemma resume_messages:
  "resume (AwaitMessages s) st =
     (Inr (), [(ToSocket s, LoadMessages (slice_last 500 (readJSON (messages_file st))))], st)"
  by (simp add: resume_def auth_got_messages_def readJSON_on_disk)

lemma resume_log:
  "resume (AwaitLog s p e) st = send_got_messages s p e (JArray (readJSON (messages_file st))) st"
  by (simp add: resume_def readJSON_on_disk)

lemma resume_write: "resume (AwaitWrite msg ms d) st = send_written msg ms d st"
  by (simp add: resume_def)

lemma step_resume_added: "step (Resume (length (pending st))) (add_task t st) = resume t st"
  by (simp add: step_def add_task_def)

lemma step_resume_none:
  "length (pending st) \<le> k \<Longrightarrow> step (Resume k) st = (Inr (), [], st)"
  by (simp add: step_def)

lemma auth_in_one_go:
  assumes "s \<in> set (connected st)"
  shows "run (in_one_go (Auth s x) (length (pending st))) st
    = (deliveries (connected st) (emitted (on_auth s x st)), after (on_auth s x st))"
proof -
  have s1: "step (Auth s x) st = (Inr (), [], add_task (AwaitUsers s x) st)"
    using assms by (simp add: step_def auth_begin_def)
  have s2: "step (Resume (length (pending st))) (add_task (AwaitUsers s x) st)
      = resume (AwaitUsers s x) st"
    by (rule step_resume_added)
  show ?thesis
  proof (cases "find (\<lambda>u. u_id u = x) (readJSON (users_file st))")
    case None
    then have r: "resume (AwaitUsers s x) st = (Inr (), [(ToSocket s, AuthFailed)], st)"
      by (simp add: resume_users)
    have o: "on_auth s x st = (Inr (), [(ToSocket s, AuthFailed)], st)"
      using None by (simp add: on_auth_def)
    show ?thesis
      by (simp add: in_one_go_def Let_def s1 s2 r o after_def emitted_def step_resume_none
          deliveries_def)
  next
    case (Some u)
    define st2 where "st2 = st\<lparr>socket_user := AList.update s (safe u) (socket_user st),
                 online := AList.update s (safe u) (online st)\<rparr>"
    have r: "resume (AwaitUsers s x) st =
        (Inr (), [(ToAll, UpdateUsers (values_of (online st2)))], add_task (AwaitMessages s) st2)"
      using Some by (simp add: resume_users st2_def)
    have "length (pending st) = length (pending st2)"
      by (simp add: st2_def)
    then have s3: "step (Resume (length (pending st))) (add_task (AwaitMessages s) st2)
        = resume (AwaitMessages s) st2"
      using step_resume_added [of st2 "AwaitMessages s"] by simp
    have c: "connected (add_task (AwaitMessages s) st2) = connected st" "connected st2 = connected st"
      "messages_file st2 = messages_file st"
      by (simp_all add: add_task_def st2_def)
    have o: "on_auth s x st =
        (Inr (), [(ToAll, UpdateUsers (values_of (online st2))),
                  (ToSocket s, LoadMessages (slice_last 500 (readJSON (messages_file st))))], st2)"
      using Some by (simp add: on_auth_def Let_def st2_def)
    show ?thesis
      by (simp add: in_one_go_def Let_def s1 s2 r s3 resume_messages o after_def emitted_def c
          deliveries_def)
  qed
qed

lemma send_got_messages_array:
  "map_of (socket_user st) s = Some su \<Longrightarrow>
   send_got_messages s p e (JArray ms) st =
     (Inr (), [],
      add_task (AwaitWrite
        \<lparr>m_id = new_id e, m_userId = s_id su, m_username = s_username su,
          m_profile = js_or (s_profile su) (js ''''),
          m_color = js_or (s_color su) (js ''#fff''),
          m_text = (case p of TextPayload t \<Rightarrow> Some t | ImagePayload u \<Rightarrow> None),
          m_image = (case p of TextPayload t \<Rightarrow> None | ImagePayload u \<Rightarrow> Some u),
          m_timestamp = now_stamp e\<rparr>
        (push_capped ms
          \<lparr>m_id = new_id e, m_userId = s_id su, m_username = s_username su,
            m_profile = js_or (s_profile su) (js ''''),
            m_color = js_or (s_color su) (js ''#fff''),
            m_text = (case p of TextPayload t \<Rightarrow> Some t | ImagePayload u \<Rightarrow> None),
            m_image = (case p of TextPayload t \<Rightarrow> None | ImagePayload u \<Rightarrow> Some u),
            m_timestamp = now_stamp e\<rparr>)
        (disk e)) st)"
  by (simp add: send_got_messages_def Let_def)

lemma send_message_in_one_go:
  assumes "s \<in> set (connected st)"
  shows "run (in_one_go (SendMessage s t e) (length (pending st))) st
    = (deliveries (connected st) (emitted (on_send_message s t e st)),
       after (on_send_message s t e st))"
proof (cases "map_of (socket_user st) s")
  case None
  with assms show ?thesis
    by (simp add: in_one_go_def Let_def step_def [of "SendMessage s t e"] send_message_begin_def
        on_send_message_def after_def emitted_def step_resume_none deliveries_def)
next
  case (Some su)
  show ?thesis
  proof (cases "trim (js_or t (js '''')) = []")
    case True
    with assms Some show ?thesis
      by (simp add: in_one_go_def Let_def step_def [of "SendMessage s t e"]
          send_message_begin_def on_send_message_def after_def emitted_def step_resume_none
          deliveries_def)
  next
    case False
    define msg where "msg = \<lparr>m_id = new_id e, m_userId = s_id su, m_username = s_username su,
          m_profile = js_or (s_profile su) (js ''''),
          m_color = js_or (s_color su) (js ''#fff''),
          m_text = Some (trim (js_or t (js ''''))), m_image = None,
          m_timestamp = now_stamp e\<rparr>"
    define w where "w = AwaitWrite msg (push_capped (readJSON (messages_file st)) msg) (disk e)"
    have s1: "step (SendMessage s t e) st
        = (Inr (), [], add_task (AwaitLog s (TextPayload (trim (js_or t (js '''')))) e) st)"
      using assms Some False by (simp add: step_def send_message_begin_def)
    have s2: "step (Resume (length (pending st)))
          (add_task (AwaitLog s (TextPayload (trim (js_or t (js '''')))) e) st)
        = (Inr (), [], add_task w st)"
      using Some
      by (simp add: step_resume_added resume_log send_got_messages_array msg_def w_def)
    have s3: "step (Resume (length (pending st))) (add_task w st)
        = send_written msg (push_capped (readJSON (messages_file st)) msg) (disk e) st"
      by (simp add: step_resume_added w_def resume_write)
    have o: "on_send_message s t e st
        = send_written msg (push_capped (readJSON (messages_file st)) msg) (disk e) st"
      using Some False
      by (simp add: on_send_message_def Let_def msg_def send_written_def)
    have c: "connected (after (send_written msg ms d st)) = connected st" for ms d
      by (cases d) (simp_all add: send_written_def writeJSON_def after_def)
    have d: "connected (add_task x st) = connected st" for x
      by (simp add: add_task_def)
    show ?thesis
      by (simp add: in_one_go_def Let_def s1 s2 s3 o after_def emitted_def deliveries_def
          d c [unfolded after_def])
  qed
qed

lemma send_image_in_one_go:
  assumes "s \<in> set (connected st)"
  shows "run (in_one_go (SendImage s t e) (length (pending st))) st
    = (deliveries (connected st) (emitted (on_send_image s t e st)),
       after (on_send_image s t e st))"
proof (cases "map_of (socket_user st) s")
  case None
  with assms show ?thesis
    by (simp add: in_one_go_def Let_def step_def [of "SendImage s t e"] send_image_begin_def
        on_send_image_def after_def emitted_def step_resume_none deliveries_def)
next
  case (Some su)
  show ?thesis
  proof (cases "t = []")
    case True
    with assms Some show ?thesis
      by (simp add: in_one_go_def Let_def step_def
          send_image_begin_def on_send_image_def after_def emitted_def deliveries_def)
  next
    case False
    define msg where "msg = \<lparr>m_id = new_id e, m_userId = s_id su, m_username = s_username su,
          m_profile = js_or (s_profile su) (js ''''),
          m_color = js_or (s_color su) (js ''#fff''),
          m_text = None, m_image = Some t, m_timestamp = now_stamp e\<rparr>"
    define w where "w = AwaitWrite msg (push_capped (readJSON (messages_file st)) msg) (disk e)"
    have s1: "step (SendImage s t e) st = (Inr (), [], add_task (AwaitLog s (ImagePayload t) e) st)"
      using assms Some False by (simp add: step_def send_image_begin_def)
    have s2: "step (Resume (length (pending st))) (add_task (AwaitLog s (ImagePayload t) e) st)
        = (Inr (), [], add_task w st)"
      using Some
      by (simp add: step_resume_added resume_log send_got_messages_array msg_def w_def)
    have s3: "step (Resume (length (pending st))) (add_task w st)
        = send_written msg (push_capped (readJSON (messages_file st)) msg) (disk e) st"
      by (simp add: step_resume_added w_def resume_write)
    have o: "on_send_image s t e st
        = send_written msg (push_capped (readJSON (messages_file st)) msg) (disk e) st"
      using Some False
      by (simp add: on_send_image_def Let_def msg_def send_written_def)
    have c: "connected (after (send_written msg ms d st)) = connected st" for ms d
      by (cases d) (simp_all add: send_written_def writeJSON_def after_def)
    have d: "connected (add_task x st) = connected st" for x
      by (simp add: add_task_def)
    show ?thesis
      by (simp add: in_one_go_def Let_def s1 s2 s3 o after_def emitted_def deliveries_def
          d c [unfolded after_def])
  qed
qed

text \<open>A valid send that is handled in one go is broadcast and appended to the log.\<close>

lemma valid_text_is_appended:
  assumes "map_of (socket_user st) sock = Some su" and "trim text0 \<noteq> []" and "disk e = Writes"
  shows "on_send_message sock text0 e st =
    (Inr (),
     [(ToAll, NewMessage
        \<lparr>m_id = new_id e, m_userId = s_id su, m_username = s_username su,
          m_profile = s_profile su, m_color = js_or (s_color su) (js ''#fff''),
          m_text = Some (trim text0), m_image = None, m_timestamp = now_stamp e\<rparr>)],
     st\<lparr>messages_file := Json (push_capped (readJSON (messages_file st))
        \<lparr>m_id = new_id e, m_userId = s_id su, m_username = s_username su,
          m_profile = s_profile su, m_color = js_or (s_color su) (js ''#fff''),
          m_text = Some (trim text0), m_image = None, m_timestamp = now_stamp e\<rparr>)\<rparr>)"
  using assms by (simp add: on_send_message_def js_or_empty Let_def writeJSON_def)

lemma valid_image_is_appended:
  assumes "map_of (socket_user st) sock = Some su" and "imageUrl \<noteq> []" and "disk e = Writes"
  shows "on_send_image sock imageUrl e st =
    (Inr (),
     [(ToAll, NewMessage
        \<lparr>m_id = new_id e, m_userId = s_id su, m_username = s_username su,
          m_profile = s_profile su, m_color = js_or (s_color su) (js ''#fff''),
          m_text = None, m_image = Some imageUrl, m_timestamp = now_stamp e\<rparr>)],
     st\<lparr>messages_file := Json (push_capped (readJSON (messages_file st))
        \<lparr>m_id = new_id e, m_userId = s_id su, m_username = s_username su,
          m_profile = s_profile su, m_color = js_or (s_color su) (js ''#fff''),
          m_text = None, m_image = Some imageUrl, m_timestamp = now_stamp e\<rparr>)\<rparr>)"
  using assms by (simp add: on_send_image_def js_or_empty Let_def writeJSON_def)

lemma disconnect_removes_entry:
  "map_of (online st) sock = Some su \<Longrightarrow>
   on_disconnect sock st =
     (Inr (), [(ToAll, UpdateUsers (values_of (AList.delete sock (online st))))],
      st\<lparr>online := AList.delete sock (online st)\<rparr>)"
  by (simp add: on_disconnect_def Let_def)

text \<open>The keys of \<open>online\<close> are distinct in every state that the server reaches.\<close>

lemma resume_keeps_distinct:
  "distinct (map fst (online st)) \<Longrightarrow> distinct (map fst (online (after (resume t st))))"
  by (cases t)
    (auto simp: resume_users resume_messages resume_log resume_write after_def add_task_def
      send_got_messages_def send_written_def writeJSON_def Let_def distinct_update
      split: option.splits disk.splits)

lemma step_keeps_distinct:
  assumes "distinct (map fst (online st))"
  shows "distinct (map fst (online (after (step i st))))"
proof (cases i)
  case (Resume k)
  show ?thesis
  proof (cases "k < length (pending st)")
    case True
    have "distinct (map fst
        (online (st\<lparr>pending := take k (pending st) @ drop (Suc k) (pending st)\<rparr>)))"
      using assms by simp
    from resume_keeps_distinct [OF this] True show ?thesis
      by (simp add: Resume step_def)
  next
    case False
    with assms show ?thesis
      by (simp add: Resume step_def after_def)
  qed
qed (use assms in \<open>auto simp: step_def after_def auth_begin_def send_message_begin_def
    send_image_begin_def on_disconnect_def add_task_def Let_def distinct_delete
    split: option.splits\<close>)

lemma online_keys_distinct:
  "distinct (map fst (online st)) \<Longrightarrow> distinct (map fst (online (snd (run ins st))))"
  by (induction ins arbitrary: st) (simp_all add: Let_def step_keeps_distinct)

lemma online_keys_distinct_from_start:
  "distinct (map fst (online (snd (run ins (init uf mf)))))"
  by (rule online_keys_distinct) (simp add: init_def)

lemma sockets_differ: "sock1 \<noteq> sock2" "sock2 \<noteq> sock1"
  by (simp_all add: sock1_def sock2_def js_def)

lemma alice_is_u1: "find (\<lambda>u. u_id u = js ''u1'') [alice, bob] = Some alice"
  by (simp add: alice_def js_def)

subsection \<open>Authentication\<close>

text \<open>
  C1. When \<open>userId\<close> is the id of a user in the users file, the \<^verbatim>\<open>auth\<close> handler
  binds that user's safe projection to the socket, leaves exactly one entry for the
  socket in \<open>online\<close> (an object has each key once), emits \<^verbatim>\<open>update-users\<close> with the
  new presence snapshot to every connected socket and then \<^verbatim>\<open>load-messages\<close> to the
  requesting socket alone, with the last \<open>min 500 n\<close> of the \<open>n\<close> persisted messages.
\<close>

theorem auth_known_user:
  assumes known: "userId \<in> u_id ` set (readJSON (users_file st))"
    and keys: "distinct (map fst (online st))"
  shows "\<exists>u. find (\<lambda>u. u_id u = userId) (readJSON (users_file st)) = Some u
      \<and> u_id u = userId
      \<and> map_of (socket_user (after (on_auth sock userId st))) sock = Some (safe u)
      \<and> filter (\<lambda>p. fst p = sock) (online (after (on_auth sock userId st))) = [(sock, safe u)]
      \<and> emitted (on_auth sock userId st) =
          [(ToAll, UpdateUsers (values_of (online (after (on_auth sock userId st))))),
           (ToSocket sock, LoadMessages (slice_last 500 (readJSON (messages_file st))))]
      \<and> deliveries (connected (after (on_auth sock userId st))) (emitted (on_auth sock userId st)) =
          map (\<lambda>c. (c, UpdateUsers (values_of (online (after (on_auth sock userId st))))))
            (connected st)
          @ [(sock, LoadMessages (slice_last 500 (readJSON (messages_file st))))]
      \<and> length (slice_last 500 (readJSON (messages_file st)))
          = min 500 (length (readJSON (messages_file st)))
      \<and> take (length (readJSON (messages_file st)) - 500) (readJSON (messages_file st))
          @ slice_last 500 (readJSON (messages_file st)) = readJSON (messages_file st)"
proof -
  from known obtain u where u: "find (\<lambda>u. u_id u = userId) (readJSON (users_file st)) = Some u"
    using find_None_iff_id [of userId "readJSON (users_file st)"]
    by (cases "find (\<lambda>u. u_id u = userId) (readJSON (users_file st))") auto
  then have uid: "u_id u = userId"
    by (auto simp: find_Some_iff)
  have a: "on_auth sock userId st =
      (Inr (), [(ToAll, UpdateUsers (values_of (AList.update sock (safe u) (online st)))),
                (ToSocket sock, LoadMessages (slice_last 500 (readJSON (messages_file st))))],
       st\<lparr>socket_user := AList.update sock (safe u) (socket_user st),
          online := AList.update sock (safe u) (online st)\<rparr>)"
    using u by (simp add: on_auth_def Let_def)
  show ?thesis
    using u uid keys
    by (simp add: a after_def emitted_def update_conv' filter_update_distinct
        deliveries_def deliver_def slice_last_length slice_last_suffix)
qed

theorem auth_known_user_witness:
  "js ''u1'' \<in> u_id ` set (readJSON (users_file quiet))
   \<and> distinct (map fst (online quiet))
   \<and> map_of (socket_user (after (on_auth sock1 (js ''u1'') quiet))) sock1 = Some (safe alice)
   \<and> filter (\<lambda>p. fst p = sock1) (online (after (on_auth sock1 (js ''u1'') quiet)))
       = [(sock1, safe alice)]
   \<and> deliveries (connected (after (on_auth sock1 (js ''u1'') quiet)))
        (emitted (on_auth sock1 (js ''u1'') quiet))
       = [(sock1, UpdateUsers [safe alice]), (sock2, UpdateUsers [safe alice]),
          (sock1, LoadMessages [])]"
proof -
  have h: "js ''u1'' \<in> u_id ` set (readJSON (users_file quiet))"
    by (simp add: instance_defs)
  have d: "distinct (map fst (online quiet))"
    by (simp add: quiet_def)
  have f: "find (\<lambda>u. u_id u = js ''u1'') (readJSON (users_file quiet)) = Some alice"
    by (simp add: instance_defs)
  from auth_known_user [OF h d, of sock1] obtain u where
    u: "find (\<lambda>u. u_id u = js ''u1'') (readJSON (users_file quiet)) = Some u"
    and s: "map_of (socket_user (after (on_auth sock1 (js ''u1'') quiet))) sock1 = Some (safe u)"
    and p: "filter (\<lambda>p. fst p = sock1) (online (after (on_auth sock1 (js ''u1'') quiet)))
       = [(sock1, safe u)]"
    and e: "deliveries (connected (after (on_auth sock1 (js ''u1'') quiet)))
        (emitted (on_auth sock1 (js ''u1'') quiet))
       = map (\<lambda>c. (c, UpdateUsers (values_of (online (after (on_auth sock1 (js ''u1'') quiet))))))
            (connected quiet)
          @ [(sock1, LoadMessages (slice_last 500 (readJSON (messages_file quiet))))]"
    by blast
  from u f have ua: "u = alice"
    by simp
  have "online (after (on_auth sock1 (js ''u1'') quiet))
      = AList.update sock1 (safe alice) (online quiet)"
    using f by (simp add: on_auth_def Let_def after_def)
  then have o: "online (after (on_auth sock1 (js ''u1'') quiet)) = [(sock1, safe alice)]"
    by (simp add: quiet_def)
  have c: "connected quiet = [sock1, sock2]"
    by (simp add: quiet_def)
  have m: "slice_last 500 (readJSON (messages_file quiet)) = []"
    by (simp add: quiet_def readJSON_def slice_last_def)
  show ?thesis
    using h d s p e unfolding ua o c m by (simp add: values_of_def)
qed

text \<open>
  C2. When \<open>userId\<close> is the id of no user in the users file, the \<^verbatim>\<open>auth\<close> handler
  changes nothing (so a socket without a user stays without one and \<open>online\<close> is as
  before) and emits \<^verbatim>\<open>auth-failed\<close> to the requesting socket and to no other.
\<close>

theorem auth_unknown_user:
  assumes "userId \<notin> u_id ` set (readJSON (users_file st))"
  shows "on_auth sock userId st = (Inr (), [(ToSocket sock, AuthFailed)], st)
    \<and> deliveries (connected st) (emitted (on_auth sock userId st)) = [(sock, AuthFailed)]
    \<and> online (after (on_auth sock userId st)) = online st
    \<and> (map_of (socket_user st) sock = None
        \<longrightarrow> map_of (socket_user (after (on_auth sock userId st))) sock = None)"
proof -
  have "find (\<lambda>u. u_id u = userId) (readJSON (users_file st)) = None"
    using assms by (simp add: find_None_iff_id)
  then have "on_auth sock userId st = (Inr (), [(ToSocket sock, AuthFailed)], st)"
    by (simp add: on_auth_def)
  then show ?thesis
    by (simp add: deliveries_def deliver_def emitted_def after_def)
qed

theorem auth_unknown_user_witness:
  "js ''u9'' \<notin> u_id ` set (readJSON (users_file quiet))
   \<and> on_auth sock1 (js ''u9'') quiet = (Inr (), [(ToSocket sock1, AuthFailed)], quiet)
   \<and> deliveries (connected quiet) (emitted (on_auth sock1 (js ''u9'') quiet))
       = [(sock1, AuthFailed)]
   \<and> map_of (socket_user (after (on_auth sock1 (js ''u9'') quiet))) sock1 = None"
proof -
  have h: "js ''u9'' \<notin> u_id ` set (readJSON (users_file quiet))"
    by (simp add: instance_defs)
  have n: "map_of (socket_user quiet) sock1 = None"
    by (simp add: quiet_def)
  show ?thesis
    using h n auth_unknown_user [OF h, of sock1] by blast
qed

text \<open>
  C10. On a socket that already has a user, an \<^verbatim>\<open>auth\<close> event with an id of no user
  in the users file emits \<^verbatim>\<open>auth-failed\<close> to that socket and leaves the state as it
  was: the socket keeps its user and \<open>online\<close> keeps its entries.
\<close>

theorem failed_auth_keeps_session:
  assumes "map_of (socket_user st) sock = Some su"
    and "userId \<notin> u_id ` set (readJSON (users_file st))"
  shows "emitted (on_auth sock userId st) = [(ToSocket sock, AuthFailed)]
    \<and> after (on_auth sock userId st) = st
    \<and> map_of (socket_user (after (on_auth sock userId st))) sock = Some su
    \<and> online (after (on_auth sock userId st)) = online st"
proof -
  have "find (\<lambda>u. u_id u = userId) (readJSON (users_file st)) = None"
    using assms(2) by (simp add: find_None_iff_id)
  then have "on_auth sock userId st = (Inr (), [(ToSocket sock, AuthFailed)], st)"
    by (simp add: on_auth_def)
  then show ?thesis
    using assms(1) by (simp add: emitted_def after_def)
qed

theorem failed_auth_keeps_session_witness:
  "map_of (socket_user chatting) sock1 = Some (safe alice)
   \<and> js ''u9'' \<notin> u_id ` set (readJSON (users_file chatting))
   \<and> emitted (on_auth sock1 (js ''u9'') chatting) = [(ToSocket sock1, AuthFailed)]
   \<and> after (on_auth sock1 (js ''u9'') chatting) = chatting
   \<and> map_of (socket_user (after (on_auth sock1 (js ''u9'') chatting))) sock1
       = Some (safe alice)
   \<and> online (after (on_auth sock1 (js ''u9'') chatting)) = [(sock1, safe alice)]"
proof -
  have a: "map_of (socket_user chatting) sock1 = Some (safe alice)"
    by (simp add: chatting_def quiet_def)
  have b: "js ''u9'' \<notin> u_id ` set (readJSON (users_file chatting))"
    by (simp add: instance_defs)
  have c: "online chatting = [(sock1, safe alice)]"
    by (simp add: chatting_def quiet_def)
  show ?thesis
    using a b c failed_auth_keeps_session [OF a b] by simp
qed

subsection \<open>Sends that are not accepted\<close>

text \<open>
  C4. On a socket that has a user, a \<^verbatim>\<open>send-message\<close> event whose text trims to the
  empty string leaves the state as it was (the log keeps its length) and emits nothing.
\<close>

theorem blank_text_is_noop:
  assumes "map_of (socket_user st) sock = Some su"
    and "trim text0 = []"
  shows "on_send_message sock text0 e st = (Inr (), [], st)
    \<and> length (get_api_messages (after (on_send_message sock text0 e st)))
        = length (get_api_messages st)
    \<and> deliveries (connected st) (emitted (on_send_message sock text0 e st)) = []"
proof -
  have "on_send_message sock text0 e st = (Inr (), [], st)"
    using assms by (simp add: on_send_message_def js_or_empty)
  then show ?thesis
    by (simp add: after_def emitted_def deliveries_def)
qed

theorem blank_text_is_noop_witness:
  "map_of (socket_user chatting) sock1 = Some (safe alice)
   \<and> trim (js ''  '') = []
   \<and> on_send_message sock1 (js ''  '') good_env chatting = (Inr (), [], chatting)"
proof -
  have a: "map_of (socket_user chatting) sock1 = Some (safe alice)"
    by (simp add: chatting_def quiet_def)
  have b: "trim (js ''  '') = []"
    by (simp add: trim_def js_def isWhiteSpace_def)
  show ?thesis
    using a b blank_text_is_noop [OF a b, of good_env] by simp
qed

text \<open>
  C5. On a socket that has no user, a \<^verbatim>\<open>send-message\<close> or \<^verbatim>\<open>send-image\<close> event is
  dropped: the handler ends without an error, the state (and with it the log) is as it
  was, and nothing is emitted to any socket.
\<close>

theorem unauthenticated_send_dropped:
  assumes "map_of (socket_user st) sock = None"
  shows "on_send_message sock text0 e st = (Inr (), [], st)
    \<and> on_send_image sock imageUrl e st = (Inr (), [], st)
    \<and> get_api_messages (after (on_send_message sock text0 e st)) = get_api_messages st
    \<and> get_api_messages (after (on_send_image sock imageUrl e st)) = get_api_messages st
    \<and> deliveries (connected st) (emitted (on_send_message sock text0 e st)) = []
    \<and> deliveries (connected st) (emitted (on_send_image sock imageUrl e st)) = []"
  using assms
  by (simp add: on_send_message_def on_send_image_def after_def emitted_def deliveries_def)

theorem unauthenticated_send_dropped_witness:
  "map_of (socket_user quiet) sock1 = None
   \<and> on_send_message sock1 (js ''hello'') good_env quiet = (Inr (), [], quiet)
   \<and> on_send_image sock1 (js ''/uploads/x.png'') good_env quiet = (Inr (), [], quiet)"
proof -
  have a: "map_of (socket_user quiet) sock1 = None"
    by (simp add: quiet_def)
  show ?thesis
    using a unauthenticated_send_dropped [OF a, of "js ''hello''" good_env "js ''/uploads/x.png''"]
    by simp
qed

subsection \<open>Sends that overlap\<close>

text \<open>The steps of alice's sends in the instance.\<close>

lemma new_id_good_env: "new_id (good_env\<lparr>now_stamp := n\<rparr>) = js ''14-0.k3''"
  by (simp add: new_id_def good_env_def toString36.simps digit36_def js_def)

lemma trim_hi: "trim (js_or (js ''hi'') (js '''')) = js ''hi''"
  by (simp add: js_or_empty) (simp add: trim_def js_def isWhiteSpace_def)

lemma chatting_fields:
  "map_of (socket_user chatting) sock1 = Some (safe alice)"
  "connected chatting = [sock1, sock2]"
  by (simp_all add: chatting_def quiet_def)

lemma chatting_start: "chatting\<lparr>messages_file := Json [], pending := []\<rparr> = chatting"
  by (simp add: chatting_def quiet_def)

lemma alice_text_message:
  "\<lparr>m_id = js ''14-0.k3'', m_userId = s_id (safe alice), m_username = s_username (safe alice),
     m_profile = js_or (s_profile (safe alice)) (js ''''),
     m_color = js_or (s_color (safe alice)) (js ''#fff''), m_text = Some (js ''hi''),
     m_image = None, m_timestamp = n\<rparr> = nth_message n"
  by (simp add: nth_message_def hi_message_def safe_def alice_def js_or_def) (simp add: js_def)

lemma alice_picture_message:
  "\<lparr>m_id = js ''14-0.k3'', m_userId = s_id (safe alice), m_username = s_username (safe alice),
     m_profile = js_or (s_profile (safe alice)) (js ''''),
     m_color = js_or (s_color (safe alice)) (js ''#fff''), m_text = None,
     m_image = Some (js ''/uploads/x.png''), m_timestamp = 42\<rparr> = picture_message"
  by (simp add: picture_message_def hi_message_def safe_def alice_def js_or_def)
    (simp add: js_def)

lemma step_nth_send:
  "step (nth_send n) (chatting\<lparr>messages_file := f, pending := ts\<rparr>)
     = (Inr (), [], chatting\<lparr>messages_file := f,
          pending := ts @ [AwaitLog sock1 (TextPayload (js ''hi'')) (good_env\<lparr>now_stamp := n\<rparr>)]\<rparr>)"
proof -
  have "js ''hi'' \<noteq> []"
    by (simp add: js_def)
  then show ?thesis
    by (simp add: nth_send_def step_def chatting_fields send_message_begin_def trim_hi
        add_task_def)
qed

lemma step_picture:
  "step picture_from_alice (chatting\<lparr>messages_file := f, pending := ts\<rparr>)
     = (Inr (), [], chatting\<lparr>messages_file := f,
          pending := ts @ [AwaitLog sock1 (ImagePayload (js ''/uploads/x.png''))
            (good_env\<lparr>now_stamp := 42\<rparr>)]\<rparr>)"
proof -
  have "js ''/uploads/x.png'' \<noteq> []"
    by (simp add: js_def)
  then show ?thesis
    by (simp add: picture_from_alice_def step_def chatting_fields send_image_begin_def
        add_task_def)
qed

lemma step_resume_text:
  "step (Resume 0) (chatting\<lparr>messages_file := Json ms,
       pending := AwaitLog sock1 (TextPayload (js ''hi'')) (good_env\<lparr>now_stamp := n\<rparr>) # ts\<rparr>)
     = (Inr (), [], chatting\<lparr>messages_file := Json ms,
          pending := ts @ [AwaitWrite (nth_message n) (push_capped ms (nth_message n)) Writes]\<rparr>)"
proof -
  have "disk (good_env\<lparr>now_stamp := n\<rparr>) = Writes" "now_stamp (good_env\<lparr>now_stamp := n\<rparr>) = n"
    by (simp_all add: good_env_def)
  then show ?thesis
    by (simp add: step_def resume_log send_got_messages_array chatting_fields
        new_id_good_env alice_text_message add_task_def readJSON_def)
qed

lemma step_resume_picture:
  "step (Resume 0) (chatting\<lparr>messages_file := Json ms,
       pending := AwaitLog sock1 (ImagePayload (js ''/uploads/x.png''))
         (good_env\<lparr>now_stamp := 42\<rparr>) # ts\<rparr>)
     = (Inr (), [], chatting\<lparr>messages_file := Json ms,
          pending := ts @ [AwaitWrite picture_message (push_capped ms picture_message) Writes]\<rparr>)"
proof -
  have "disk (good_env\<lparr>now_stamp := 42\<rparr>) = Writes" "now_stamp (good_env\<lparr>now_stamp := 42\<rparr>) = 42"
    by (simp_all add: good_env_def)
  then show ?thesis
    by (simp add: step_def resume_log send_got_messages_array chatting_fields
        new_id_good_env alice_picture_message add_task_def readJSON_def)
qed

lemma step_resume_write:
  "step (Resume 0) (chatting\<lparr>messages_file := f, pending := AwaitWrite m ms Writes # ts\<rparr>)
     = (Inr (), [(ToAll, NewMessage m)], chatting\<lparr>messages_file := Json ms, pending := ts\<rparr>)"
  by (simp add: step_def resume_write send_written_def writeJSON_def)

lemma deliver_to_both:
  "deliveries [sock1, sock2] [(ToAll, ev)] = [(sock1, ev), (sock2, ev)]"
  "deliveries cs [] = []"
  by (simp_all add: deliveries_def deliver_def)

lemmas alice_steps = step_nth_send step_picture step_resume_text step_resume_picture
  step_resume_write chatting_fields deliver_to_both after_def emitted_def Let_def

lemma run_append:
  "run (xs @ ys) st
     = (fst (run xs st) @ fst (run ys (snd (run xs st))), snd (run ys (snd (run xs st))))"
  by (induction xs arbitrary: st) (simp_all add: Let_def)

lemma one_go_alice:
  "length ms < 2000 \<Longrightarrow>
   run (in_one_go (nth_send n) 0) (chatting\<lparr>messages_file := Json ms, pending := []\<rparr>)
     = ([(sock1, NewMessage (nth_message n)), (sock2, NewMessage (nth_message n))],
        chatting\<lparr>messages_file := Json (ms @ [nth_message n]), pending := []\<rparr>)"
  by (simp add: in_one_go_def alice_steps push_capped_short)

lemma many_in_one_go:
  "k \<le> 2000 \<Longrightarrow>
   run (concat (map (\<lambda>n. in_one_go (nth_send n) 0) [0..<k]))
       (chatting\<lparr>messages_file := Json [], pending := []\<rparr>)
     = (concat (map (\<lambda>n. [(sock1, NewMessage (nth_message n)),
                            (sock2, NewMessage (nth_message n))]) [0..<k]),
        chatting\<lparr>messages_file := Json (map nth_message [0..<k]), pending := []\<rparr>)"
proof (induction k)
  case 0
  then show ?case by simp
next
  case (Suc k)
  then have k: "k \<le> 2000" and l: "length (map nth_message [0..<k]) < 2000"
    by simp_all
  show ?case
    by (simp add: run_append Suc.IH [OF k] one_go_alice [OF l])
qed

lemma two_overlap_alice:
  "length ms < 2000 \<Longrightarrow>
   run [nth_send a, nth_send b, Resume 0, Resume 0, Resume 0, Resume 0]
       (chatting\<lparr>messages_file := Json ms, pending := []\<rparr>)
     = ([(sock1, NewMessage (nth_message a)), (sock2, NewMessage (nth_message a)),
         (sock1, NewMessage (nth_message b)), (sock2, NewMessage (nth_message b))],
        chatting\<lparr>messages_file := Json (ms @ [nth_message b]), pending := []\<rparr>)"
  by (simp add: alice_steps push_capped_short)

lemma nth_message_eq: "(nth_message a = nth_message b) = (a = b)"
  by (simp add: nth_message_def hi_message_def)

lemma upt_2001: "[0..<2001] = [0..<1999] @ [1999, 2000]"
proof -
  have "[0..<1999 + 2] = [0..<1999] @ [1999..<1999 + 2]"
    by (rule upt_add_eq_append) simp
  moreover have "[1999..<1999 + 2] = [1999, 2000::nat]"
    by (simp add: upt_conv_Cons)
  ultimately show ?thesis
    by simp
qed


text \<open>
  C3. The log does not always hold the last 2000 messages: two sends can overlap. Of
  2001 texts from alice on an empty log the first 1999 are handled one after the other,
  and the last two have both read the log before either writes it. All 2001 messages are broadcast, in order. The log read
  back afterwards holds messages 0 to 1998 and message 2000: message 1999, which is
  among the last 2000, is not in it, and message 0, which is not, is.
\<close>

theorem overlapping_sends_lose_a_message:
  "get_api_messages chatting = []
   \<and> fst (run last_two_overlap chatting)
     = concat (map (\<lambda>n. [(sock1, NewMessage (nth_message n)),
                           (sock2, NewMessage (nth_message n))]) [0..<2001])
   \<and> get_api_messages (snd (run last_two_overlap chatting))
     = map nth_message [0..<1999] @ [nth_message 2000]
   \<and> length (get_api_messages (snd (run last_two_overlap chatting))) = 2000
   \<and> nth_message 1999 \<in> set (drop (2001 - 2000) (map nth_message [0..<2001]))
   \<and> nth_message 1999 \<notin> set (get_api_messages (snd (run last_two_overlap chatting)))
   \<and> nth_message 0 \<notin> set (drop (2001 - 2000) (map nth_message [0..<2001]))
   \<and> nth_message 0 \<in> set (get_api_messages (snd (run last_two_overlap chatting)))"
proof -
  have l: "length (map nth_message [0..<1999]) < 2000"
    by simp
  have a: "run (concat (map (\<lambda>n. in_one_go (nth_send n) 0) [0..<1999]))
       (chatting\<lparr>messages_file := Json [], pending := []\<rparr>)
     = (concat (map (\<lambda>n. [(sock1, NewMessage (nth_message n)),
                            (sock2, NewMessage (nth_message n))]) [0..<1999]),
        chatting\<lparr>messages_file := Json (map nth_message [0..<1999]), pending := []\<rparr>)"
    by (rule many_in_one_go) simp
  note b = two_overlap_alice [OF l, of 1999 2000]
  have "run last_two_overlap (chatting\<lparr>messages_file := Json [], pending := []\<rparr>)
     = (concat (map (\<lambda>n. [(sock1, NewMessage (nth_message n)),
                            (sock2, NewMessage (nth_message n))]) [0..<1999])
        @ [(sock1, NewMessage (nth_message 1999)), (sock2, NewMessage (nth_message 1999)),
           (sock1, NewMessage (nth_message 2000)), (sock2, NewMessage (nth_message 2000))],
        chatting\<lparr>messages_file := Json (map nth_message [0..<1999] @ [nth_message 2000]),
                  pending := []\<rparr>)"
    unfolding last_two_overlap_def run_append a fst_conv snd_conv b by (rule refl)
  then have "run last_two_overlap (chatting\<lparr>messages_file := Json [], pending := []\<rparr>)
     = (concat (map (\<lambda>n. [(sock1, NewMessage (nth_message n)),
                           (sock2, NewMessage (nth_message n))]) [0..<2001]),
        chatting\<lparr>messages_file := Json (map nth_message [0..<1999] @ [nth_message 2000]),
                  pending := []\<rparr>)"
    by (simp add: upt_2001)
  then have r: "run last_two_overlap chatting
     = (concat (map (\<lambda>n. [(sock1, NewMessage (nth_message n)),
                           (sock2, NewMessage (nth_message n))]) [0..<2001]),
        chatting\<lparr>messages_file := Json (map nth_message [0..<1999] @ [nth_message 2000]),
                  pending := []\<rparr>)"
    by (simp add: chatting_start)
  have e: "get_api_messages chatting = []"
    by (simp add: get_api_messages_def chatting_def quiet_def readJSON_def)
  have d: "drop (2001 - 2000) (map nth_message [0..<2001]) = map nth_message [1..<2001]"
    by (simp add: drop_map)
  show ?thesis
    unfolding d using e
    by (simp add: r get_api_messages_def readJSON_def nth_message_eq image_iff)
qed

subsection \<open>Failing reads and writes\<close>




subsection \<open>Presence and disconnects\<close>

text \<open>
  C8. A presence entry can outlive its socket: a socket can close while its
  \<^verbatim>\<open>auth\<close> handler waits for the users file. From the start of the process two sockets connect; the first sends
  \<^verbatim>\<open>auth\<close> with the id of alice and closes. Its \<^verbatim>\<open>disconnect\<close> handler finds no
  entry to remove. Then the \<^verbatim>\<open>auth\<close> handler goes on: it binds alice to the closed
  socket, enters her in \<open>online\<close> and broadcasts her presence to the other socket.
  The entry is in \<open>online\<close> while its socket is not connected, and a further
  \<^verbatim>\<open>disconnect\<close> of that socket does not occur.
\<close>

theorem presence_outlives_socket:
  "snd (run auth_then_close (init (Json [alice, bob]) (Json [])))
     = \<lparr>users_file = Json [alice, bob], messages_file = Json [],
        online = [(sock1, safe alice)], socket_user = [(sock1, safe alice)],
        connected = [sock2], pending = []\<rparr>
   \<and> fst (run auth_then_close (init (Json [alice, bob]) (Json [])))
     = [(sock2, UpdateUsers [safe alice]), (sock1, LoadMessages [])]
   \<and> sock1 \<notin> set (connected (snd (run auth_then_close (init (Json [alice, bob]) (Json [])))))
   \<and> map_of (online (snd (run auth_then_close (init (Json [alice, bob]) (Json []))))) sock1
     = Some (safe alice)
   \<and> step (Disconnect sock1) (snd (run auth_then_close (init (Json [alice, bob]) (Json []))))
     = (Inr (), [], snd (run auth_then_close (init (Json [alice, bob]) (Json []))))"
proof -
  have r: "run auth_then_close (init (Json [alice, bob]) (Json []))
     = ([(sock2, UpdateUsers [safe alice]), (sock1, LoadMessages [])],
        \<lparr>users_file = Json [alice, bob], messages_file = Json [],
        online = [(sock1, safe alice)], socket_user = [(sock1, safe alice)],
        connected = [sock2], pending = []\<rparr>)"
    using sockets_differ alice_is_u1
    by (simp add: auth_then_close_def init_def step_def Let_def after_def emitted_def
        auth_begin_def add_task_def resume_users resume_messages on_disconnect_def
        deliveries_def deliver_def values_of_def slice_last_def readJSON_def)
  show ?thesis
    using sockets_differ by (simp add: r step_def)
qed

subsection \<open>Password digests\<close>

lemma readJSON_map: "readJSON (map_file_content f x) = map f (readJSON x)"
  by (cases x) (simp_all add: readJSON_def)

lemma erase_password_eq:
  "erase_password u = erase_password v \<Longrightarrow> u_id u = u_id v \<and> safe u = safe v"
  by (cases u, cases v) (simp add: erase_password_def safe_def)

lemma find_same_but_passwords:
  "map erase_password us = map erase_password vs \<Longrightarrow>
     map_option safe (find (\<lambda>u. u_id u = x) us) = map_option safe (find (\<lambda>u. u_id u = x) vs)"
proof (induction us arbitrary: vs)
  case Nil
  then show ?case by simp
next
  case (Cons u us)
  then obtain v vs' where vs: "vs = v # vs'" and e: "erase_password u = erase_password v"
    and r: "map erase_password us = map erase_password vs'"
    by (cases vs) auto
  from erase_password_eq [OF e] Cons.IH [OF r] show ?case
    by (simp add: vs)
qed

lemma resume_users_same_view:
  assumes "same_view a b"
  shows "emitted (resume (AwaitUsers s x) a) = emitted (resume (AwaitUsers s x) b)
    \<and> same_view (after (resume (AwaitUsers s x) a)) (after (resume (AwaitUsers s x) b))"
proof -
  from assms have "map erase_password (readJSON (users_file a))
      = map erase_password (readJSON (users_file b))"
    by (simp add: same_view_def same_but_passwords_def readJSON_map [symmetric])
  from find_same_but_passwords [OF this, of x] assms show ?thesis
    by (cases "find (\<lambda>u. u_id u = x) (readJSON (users_file a))";
        cases "find (\<lambda>u. u_id u = x) (readJSON (users_file b))")
      (simp_all add: resume_users emitted_def after_def same_view_def add_task_def)
qed

lemma same_view_users_file: "same_view a b \<Longrightarrow> b = a\<lparr>users_file := users_file b\<rparr>"
  by (cases a, cases b) (simp add: same_view_def)

lemma same_view_update:
  "same_but_passwords (users_file a) f \<Longrightarrow> same_view a (a\<lparr>users_file := f\<rparr>)"
  by (simp add: same_view_def)

lemma resume_users_file:
  "\<forall>s x. t \<noteq> AwaitUsers s x \<Longrightarrow>
     emitted (resume t (a\<lparr>users_file := f\<rparr>)) = emitted (resume t a)
     \<and> after (resume t (a\<lparr>users_file := f\<rparr>)) = (after (resume t a))\<lparr>users_file := f\<rparr>"
  by (cases t)
    (auto simp: resume_messages resume_log resume_write emitted_def after_def add_task_def
      send_got_messages_def send_written_def writeJSON_def Let_def
      split: option.splits disk.splits)

lemma resume_keeps_users_file: "users_file (after (resume t a)) = users_file a"
  by (cases t)
    (auto simp: resume_users resume_messages resume_log resume_write after_def add_task_def
      send_got_messages_def send_written_def writeJSON_def Let_def
      split: option.splits disk.splits)

lemma resume_same_view:
  assumes "same_view a b"
  shows "emitted (resume t a) = emitted (resume t b)
    \<and> same_view (after (resume t a)) (after (resume t b))"
proof (cases "\<exists>s x. t = AwaitUsers s x")
  case True
  with resume_users_same_view [OF assms] show ?thesis
    by auto
next
  case False
  then have n: "\<forall>s x. t \<noteq> AwaitUsers s x" by blast
  have b: "b = a\<lparr>users_file := users_file b\<rparr>"
    by (rule same_view_users_file [OF assms])
  have "emitted (resume t (a\<lparr>users_file := users_file b\<rparr>)) = emitted (resume t a)
     \<and> after (resume t (a\<lparr>users_file := users_file b\<rparr>))
         = (after (resume t a))\<lparr>users_file := users_file b\<rparr>"
    by (rule resume_users_file [OF n])
  then have e: "emitted (resume t b) = emitted (resume t a)"
    and f: "after (resume t b) = (after (resume t a))\<lparr>users_file := users_file b\<rparr>"
    using b by simp_all
  have "same_view (after (resume t a)) ((after (resume t a))\<lparr>users_file := users_file b\<rparr>)"
    using assms by (intro same_view_update) (simp add: resume_keeps_users_file same_view_def)
  with e f show ?thesis
    by simp
qed

lemma step_same_view:
  assumes "same_view a b"
  shows "emitted (step i a) = emitted (step i b)
    \<and> same_view (after (step i a)) (after (step i b))"
proof (cases i)
  case (Resume k)
  have p: "pending a = pending b"
    using assms by (simp add: same_view_def)
  show ?thesis
  proof (cases "k < length (pending a)")
    case True
    have "same_view (a\<lparr>pending := take k (pending a) @ drop (Suc k) (pending a)\<rparr>)
        (b\<lparr>pending := take k (pending a) @ drop (Suc k) (pending a)\<rparr>)"
      using assms by (simp add: same_view_def)
    from resume_same_view [OF this, of "pending a ! k"] True show ?thesis
      by (simp add: Resume step_def p [symmetric])
  next
    case False
    with assms show ?thesis
      by (simp add: Resume step_def p [symmetric] emitted_def after_def)
  qed
qed (use assms in \<open>auto simp: step_def same_view_def emitted_def after_def auth_begin_def
    send_message_begin_def send_image_begin_def on_disconnect_def add_task_def Let_def
    split: option.splits\<close>)

lemma run_same_view:
  "same_view a b \<Longrightarrow>
     fst (run ins a) = fst (run ins b) \<and> same_view (snd (run ins a)) (snd (run ins b))"
proof (induction ins arbitrary: a b)
  case Nil
  then show ?case by simp
next
  case (Cons i ins)
  from step_same_view [OF Cons.prems, of i]
  have e: "emitted (step i a) = emitted (step i b)"
    and v: "same_view (after (step i a)) (after (step i b))"
    by simp_all
  from v have c: "connected (after (step i a)) = connected (after (step i b))"
    by (simp add: same_view_def)
  from Cons.IH [OF v] show ?case
    by (simp add: Let_def e c)
qed

text \<open>
  C9. The events carry values of \<open>safe_user\<close> and \<open>message\<close>, neither of which has
  a field for the password digest, and the digests of the users file do not influence
  them: from two states that differ only in the password digests of their users, the
  same inputs lead to the same deliveries, the same \<open>online\<close> and the same log.
\<close>

theorem password_does_not_flow:
  assumes "same_but_passwords uf1 uf2"
  shows "fst (run ins (st\<lparr>users_file := uf1\<rparr>)) = fst (run ins (st\<lparr>users_file := uf2\<rparr>))
    \<and> online (snd (run ins (st\<lparr>users_file := uf1\<rparr>)))
        = online (snd (run ins (st\<lparr>users_file := uf2\<rparr>)))
    \<and> messages_file (snd (run ins (st\<lparr>users_file := uf1\<rparr>)))
        = messages_file (snd (run ins (st\<lparr>users_file := uf2\<rparr>)))"
proof -
  have "same_view (st\<lparr>users_file := uf1\<rparr>) (st\<lparr>users_file := uf2\<rparr>)"
    using assms by (simp add: same_view_def)
  from run_same_view [OF this, of ins] show ?thesis
    by (simp add: same_view_def)
qed

theorem password_does_not_flow_witness:
  "same_but_passwords (Json [alice, bob]) (Json [alice\<lparr>u_passwordHash := js ''0000''\<rparr>, bob])
   \<and> Json [alice, bob] \<noteq> Json [alice\<lparr>u_passwordHash := js ''0000''\<rparr>, bob]
   \<and> fst (run (in_one_go (Auth sock1 (js ''u1'')) 0 @ in_one_go hi_from_alice 0)
          (quiet\<lparr>users_file := Json [alice, bob]\<rparr>))
     = fst (run (in_one_go (Auth sock1 (js ''u1'')) 0 @ in_one_go hi_from_alice 0)
         (quiet\<lparr>users_file := Json [alice\<lparr>u_passwordHash := js ''0000''\<rparr>, bob]\<rparr>))"
proof -
  have s: "same_but_passwords (Json [alice, bob])
      (Json [alice\<lparr>u_passwordHash := js ''0000''\<rparr>, bob])"
    by (simp add: same_but_passwords_def erase_password_def)
  have d: "Json [alice, bob] \<noteq> Json [alice\<lparr>u_passwordHash := js ''0000''\<rparr>, bob]"
    by (simp add: alice_def js_def)
  show ?thesis
    using s d password_does_not_flow [OF s,
        of "in_one_go (Auth sock1 (js ''u1'')) 0 @ in_one_go hi_from_alice 0" quiet]
    by blast
qed

end
